theory Spec2Isabelle
  imports Main "HOL-Library.Sublist"
begin

section \<open>Data model of the plugin (packages/plugin/src/index.ts)\<close>

text \<open>
  Times are the millisecond counts that \<^verbatim>\<open>Date.now()\<close> returns, lifetimes the
  second counts of \<^verbatim>\<open>expires_in\<close>; both are modelled as integers (the arithmetic
  of the source is exact on them below \<open>2^53\<close>). An optional field that is absent
  (\<^verbatim>\<open>undefined\<close>) is \<open>None\<close>. Strings are sequences of 8-bit characters: the
  strings that the platform accepts as a \<^verbatim>\<open>ByteString\<close>.
\<close>

record OAuthConfig =
  tokenUrl :: string
  clientId :: string
  clientSecret :: string
  scope :: "string option"

record TokenData =
  accessToken :: "string option"
  tokenType :: string
  expiresAt :: int

text \<open>The provider registry \<^verbatim>\<open>oauthProviders\<close> is a \<^verbatim>\<open>Map\<close>, iterated in
  insertion order: an association list from provider id to its entry.\<close>

record provider =
  baseURL :: string
  oauth :: OAuthConfig

type_synonym providers = "(string \<times> provider) list"

subsection \<open>Errors\<close>

text \<open>
  \<open>Error m\<close> is the object built by \<^verbatim>\<open>new Error(m)\<close>; \<open>Failure c\<close> is a rejection
  raised by the platform (the transport, or reading a response body), identified by
  an opaque description \<open>c\<close> of its cause; \<open>TypeError\<close> is the exception that the
  platform's \<^verbatim>\<open>Headers\<close> class throws at an illegal header name or value.
\<close>

datatype js_error = Error string | Failure string | TypeError

subsection \<open>Requests and responses of the transport\<close>

text \<open>
  The platform's \<^verbatim>\<open>Headers\<close> class, after the Fetch standard. Header names are
  matched without regard to case and the values given for one name are combined, so
  a \<^verbatim>\<open>Headers\<close> object is modelled by what its \<^verbatim>\<open>get\<close> method returns: a map from
  lower-cased names to values.
\<close>

type_synonym Headers = "string \<rightharpoonup> string"

definition lower_char :: "char \<Rightarrow> char" where
  "lower_char c =
     (if (65::nat) \<le> of_char c \<and> of_char c \<le> (90::nat) then char_of (of_char c + (32::nat)) else c)"

definition lower :: "string \<Rightarrow> string" where
  "lower s = map lower_char s"

text \<open>HTTP whitespace (tab, line feed, carriage return, space), which \<^verbatim>\<open>set\<close> and
  \<^verbatim>\<open>append\<close> strip from both ends of a value before they check it.\<close>

definition http_whitespace :: "char \<Rightarrow> bool" where
  "http_whitespace c \<longleftrightarrow>
     (of_char c :: nat) = 9 \<or> (of_char c :: nat) = 10 \<or> (of_char c :: nat) = 13
       \<or> (of_char c :: nat) = 32"

definition normalize_value :: "string \<Rightarrow> string" where
  "normalize_value v = rev (dropWhile http_whitespace (rev (dropWhile http_whitespace v)))"

text \<open>A header name is a non-empty token.\<close>

definition tchar :: "char \<Rightarrow> bool" where
  "tchar c \<longleftrightarrow>
     (let n = (of_char c :: nat)
      in (48 \<le> n \<and> n \<le> 57) \<or> (65 \<le> n \<and> n \<le> 90) \<or> (97 \<le> n \<and> n \<le> 122)
         \<or> n \<in> set [33, 35, 36, 37, 38, 39, 42, 43, 45, 46, 94, 95, 96, 124, 126])"

definition is_header_name :: "string \<Rightarrow> bool" where
  "is_header_name n \<longleftrightarrow> n \<noteq> [] \<and> list_all tchar n"

text \<open>A header value holds no NUL, line feed or carriage return, and neither starts
  nor ends with a tab or a space.\<close>

definition tab_or_space :: "char \<Rightarrow> bool" where
  "tab_or_space c \<longleftrightarrow> (of_char c :: nat) = 9 \<or> (of_char c :: nat) = 32"

definition forbidden_in_value :: "char \<Rightarrow> bool" where
  "forbidden_in_value c \<longleftrightarrow>
     (of_char c :: nat) = 0 \<or> (of_char c :: nat) = 10 \<or> (of_char c :: nat) = 13"

definition is_header_value :: "string \<Rightarrow> bool" where
  "is_header_value v \<longleftrightarrow>
     list_all (\<lambda>c. \<not> forbidden_in_value c) v
     \<and> (case v of [] \<Rightarrow> True | c # cs \<Rightarrow> \<not> tab_or_space c \<and> \<not> tab_or_space (last (c # cs)))"

text \<open>\<^verbatim>\<open>headers.get(n)\<close>, \<^verbatim>\<open>headers.set(n, v)\<close> and \<^verbatim>\<open>headers.append(n, v)\<close>. The last
  two throw a \<^verbatim>\<open>TypeError\<close> when the name or the stripped value is illegal.\<close>

definition Headers_get :: "Headers \<Rightarrow> string \<Rightarrow> string option" where
  "Headers_get h n = h (lower n)"

definition Headers_set :: "Headers \<Rightarrow> string \<Rightarrow> string \<Rightarrow> js_error + Headers" where
  "Headers_set h n v =
     (let stripped = normalize_value v
      in if is_header_name n \<and> is_header_value stripped
         then Inr (h(lower n \<mapsto> stripped))
         else Inl TypeError)"

definition Headers_append :: "Headers \<Rightarrow> string \<Rightarrow> string \<Rightarrow> js_error + Headers" where
  "Headers_append h n v =
     (let stripped = normalize_value v
      in if is_header_name n \<and> is_header_value stripped
         then Inr (h(lower n \<mapsto>
                (case h (lower n) of None \<Rightarrow> stripped | Some w \<Rightarrow> w @ '', '' @ stripped)))
         else Inl TypeError)"

text \<open>What a caller may pass as \<^verbatim>\<open>init.headers\<close>: a list of pairs (or a plain
  object, read as its list of entries), or a \<^verbatim>\<open>Headers\<close> object.\<close>

datatype HeadersInit = Pairs "(string \<times> string) list" | HeadersObject Headers

datatype BodyInit = Text string | Form "(string \<times> string) list"

record RequestInit =
  init_method :: "string option"
  init_headers :: "HeadersInit option"
  init_body :: "BodyInit option"

text \<open>\<^verbatim>\<open>new Headers(h)\<close>: a copy of a \<^verbatim>\<open>Headers\<close> object, the pairs appended one by
  one otherwise (the first illegal pair throws), nothing for \<^verbatim>\<open>undefined\<close>.\<close>

fun fill :: "Headers \<Rightarrow> (string \<times> string) list \<Rightarrow> js_error + Headers" where
  "fill h [] = Inr h"
| "fill h ((n, v) # ps) =
     (case Headers_append h n v of
        Inl e \<Rightarrow> Inl e
      | Inr h' \<Rightarrow> fill h' ps)"

fun new_Headers :: "HeadersInit option \<Rightarrow> js_error + Headers" where
  "new_Headers None = Inr Map.empty"
| "new_Headers (Some (HeadersObject h)) = Inr h"
| "new_Headers (Some (Pairs ps)) = fill Map.empty ps"

text \<open>The first argument of \<^verbatim>\<open>fetch\<close>: a string, a \<^verbatim>\<open>URL\<close> or a \<^verbatim>\<open>Request\<close>
  (of which only the url is read).\<close>

datatype RequestInfo = Str string | URL string | Request string

record call =
  call_input :: RequestInfo
  call_init :: "RequestInit option"

text \<open>The body of a token response as \<^verbatim>\<open>res.json()\<close> yields it, with the fields the
  wire contract gives it. Of a response, \<open>res_text\<close> is what \<^verbatim>\<open>res.text()\<close> resolves to
  or rejects with, and \<open>res_json\<close> what \<^verbatim>\<open>res.json()\<close> does.\<close>

record token_response =
  access_token :: "string option"
  token_type :: "string option"
  expires_in :: "int option"

record response =
  res_status :: nat
  res_text :: "js_error + string"
  res_json :: "js_error + token_response"

definition ok :: "response \<Rightarrow> bool" where
  "ok res \<longleftrightarrow> 200 \<le> res_status res \<and> res_status res \<le> 299"

section \<open>fetchToken\<close>

text \<open>JavaScript's \<^verbatim>\<open>x || d\<close> on an optional string and an optional number:
  \<^verbatim>\<open>undefined\<close>, the empty string and \<open>0\<close> are falsy.\<close>

definition str_or :: "string option \<Rightarrow> string \<Rightarrow> string" where
  "str_or x d = (case x of None \<Rightarrow> d | Some v \<Rightarrow> if v = [] then d else v)"

definition num_or :: "int option \<Rightarrow> int \<Rightarrow> int" where
  "num_or x d = (case x of None \<Rightarrow> d | Some v \<Rightarrow> if v = 0 then d else v)"

text \<open>Decimal rendering of a status code inside a template literal.\<close>

fun string_of_nat :: "nat \<Rightarrow> string" where
  "string_of_nat n =
     (if n < 10 then [char_of (48 + n)]
      else string_of_nat (n div 10) @ [char_of (48 + n mod 10)])"

declare string_of_nat.simps [simp del]

text \<open>The request of lines 112-123. The body is kept as the list of form fields
  (\<^verbatim>\<open>URLSearchParams\<close>) that \<^verbatim>\<open>body.toString()\<close> serialises.\<close>

definition token_request :: "OAuthConfig \<Rightarrow> call" where
  "token_request config =
     \<lparr>call_input = Str (tokenUrl config),
      call_init = Some
        \<lparr>init_method = Some ''POST'',
         init_headers = Some (Pairs [(''Content-Type'', ''application/x-www-form-urlencoded'')]),
         init_body = Some (Form
           ([(''grant_type'', ''client_credentials''),
             (''client_id'', clientId config),
             (''client_secret'', clientSecret config)]
            @ (case scope config of
                 None \<Rightarrow> []
               | Some sc \<Rightarrow> if sc = [] then [] else [(''scope'', sc)])))\<rparr>\<rparr>"

text \<open>
  Lines 125-138: what \<^verbatim>\<open>fetchToken\<close> returns or throws, given the outcome \<open>r\<close> of
  its call of the transport and the value \<open>now\<close> of \<^verbatim>\<open>Date.now()\<close> at line 137.
  A rejection of the transport, of \<^verbatim>\<open>res.text()\<close> or of \<^verbatim>\<open>res.json()\<close> is not caught.
  The calls of \<^verbatim>\<open>log\<close> print a line and return (a failed write to the log file is
  caught inside \<^verbatim>\<open>log\<close>); they are left out here and below.
\<close>

definition fetchToken_result :: "js_error + response \<Rightarrow> int \<Rightarrow> js_error + TokenData" where
  "fetchToken_result r now =
     (case r of
        Inl e \<Rightarrow> Inl e
      | Inr res \<Rightarrow>
          if \<not> ok res then
            (case res_text res of
               Inl e \<Rightarrow> Inl e
             | Inr err \<Rightarrow>
                 Inl (Error (''OAuth token failed ('' @ string_of_nat (res_status res)
                             @ ''): '' @ err)))
          else
            (case res_json res of
               Inl e \<Rightarrow> Inl e
             | Inr data \<Rightarrow>
                 Inr \<lparr>accessToken = access_token data,
                      tokenType = str_or (token_type data) ''Bearer'',
                      expiresAt = now + num_or (expires_in data) 3600 * 1000\<rparr>))"

text \<open>The value of the template literal \<^verbatim>\<open>`${token.tokenType} ${token.accessToken}`\<close>.\<close>

definition authorization :: "TokenData \<Rightarrow> string" where
  "authorization t =
     tokenType t @ '' '' @ (case accessToken t of None \<Rightarrow> ''undefined'' | Some a \<Rightarrow> a)"

section \<open>The token cache and getToken\<close>

text \<open>
  \<^verbatim>\<open>tokenCache\<close> maps a provider id to an entry \<^verbatim>\<open>{token, promise}\<close>. A promise
  returned by \<^verbatim>\<open>fetchToken\<close> is identified by the number of the fetch that made it.
\<close>

record cache_entry =
  token :: "TokenData option"
  promise :: "nat option"

text \<open>
  One execution of lines 158-169 of \<^verbatim>\<open>getToken\<close>: the provider id it was called
  with, its local \<^verbatim>\<open>existingToken\<close>, the position of its token request among the
  calls of the transport, how its promise settled (\<open>None\<close> while the fetch is in
  flight) and whether the code after \<^verbatim>\<open>await promise\<close> has run.
\<close>

record fetch =
  owner :: string
  existingToken :: "TokenData option"
  request_ix :: nat
  settled :: "(js_error + TokenData) option"
  resumed :: bool

record state =
  tokenCache :: "string \<rightharpoonup> cache_entry"
  fetches :: "fetch list"
  sent :: "call list"
  now :: int

text \<open>How a call of \<^verbatim>\<open>getToken\<close> leaves its synchronous part: returning the cached
  token (line 149), returning the pending promise (line 154), or awaiting the promise
  of the fetch it has just started (line 163).\<close>

datatype outcome = Cached TokenData | Joined nat | Started nat

definition cached_token :: "state \<Rightarrow> string \<Rightarrow> TokenData option" where
  "cached_token s providerId = Option.bind (tokenCache s providerId) token"

definition cached_promise :: "state \<Rightarrow> string \<Rightarrow> nat option" where
  "cached_promise s providerId = Option.bind (tokenCache s providerId) promise"

text \<open>Lines 145-160, up to the first suspension. \<^verbatim>\<open>fetchToken\<close> is entered at line 158
  and sends its request without a condition, which is recorded at once.\<close>

definition start_fetch :: "string \<Rightarrow> OAuthConfig \<Rightarrow> state \<Rightarrow> outcome \<times> state" where
  "start_fetch providerId config s =
     (let q = length (fetches s);
          existing = cached_token s providerId
      in (Started q,
          s\<lparr>fetches := fetches s @
                [\<lparr>owner = providerId, existingToken = existing,
                  request_ix = length (sent s), settled = None, resumed = False\<rparr>],
            sent := sent s @ [token_request config],
            tokenCache := (tokenCache s)(providerId \<mapsto>
                \<lparr>token = existing, promise = Some q\<rparr>)\<rparr>))"

definition getToken_call :: "string \<Rightarrow> OAuthConfig \<Rightarrow> state \<Rightarrow> outcome \<times> state" where
  "getToken_call providerId config s =
     (case cached_token s providerId of
        Some t \<Rightarrow>
          if expiresAt t > now s + 60000 then (Cached t, s)
          else (case cached_promise s providerId of
                  Some q \<Rightarrow> (Joined q, s)
                | None \<Rightarrow> start_fetch providerId config s)
      | None \<Rightarrow>
          (case cached_promise s providerId of
             Some q \<Rightarrow> (Joined q, s)
           | None \<Rightarrow> start_fetch providerId config s))"

text \<open>The transport call of fetch \<open>q\<close> completes with \<open>r\<close>: lines 125-138 run and the
  promise settles. Nothing happens for a fetch that is not in flight.\<close>

definition settle :: "nat \<Rightarrow> js_error + response \<Rightarrow> state \<Rightarrow> state" where
  "settle q r s =
     (if q < length (fetches s) \<and> settled (fetches s ! q) = None
      then s\<lparr>fetches := (fetches s)[q := (fetches s ! q)
                \<lparr>settled := Some (fetchToken_result r (now s))\<rparr>]\<rparr>
      else s)"

text \<open>Lines 163-169: the call that started fetch \<open>q\<close> resumes after its promise has
  settled, and returns the token or rethrows.\<close>

definition resume :: "nat \<Rightarrow> state \<Rightarrow> state" where
  "resume q s =
     (if q < length (fetches s) \<and> \<not> resumed (fetches s ! q) then
        (case settled (fetches s ! q) of
           None \<Rightarrow> s
         | Some (Inr tok) \<Rightarrow>
             s\<lparr>tokenCache := (tokenCache s)(owner (fetches s ! q) \<mapsto>
                   \<lparr>token = Some tok, promise = None\<rparr>),
               fetches := (fetches s)[q := (fetches s ! q)\<lparr>resumed := True\<rparr>]\<rparr>
         | Some (Inl e) \<Rightarrow>
             s\<lparr>tokenCache := (tokenCache s)(owner (fetches s ! q) \<mapsto>
                   \<lparr>token = existingToken (fetches s ! q), promise = None\<rparr>),
               fetches := (fetches s)[q := (fetches s ! q)\<lparr>resumed := True\<rparr>]\<rparr>)
      else s)"

text \<open>Line 297, \<^verbatim>\<open>tokenCache.delete(providerId)\<close>.\<close>

definition invalidate :: "string \<Rightarrow> state \<Rightarrow> state" where
  "invalidate providerId s = s\<lparr>tokenCache := (tokenCache s)(providerId := None)\<rparr>"

text \<open>What a call of \<^verbatim>\<open>getToken\<close> resolves to, once it does: the cached token, or
  the settlement of the promise it awaits.\<close>

definition resolves_to :: "state \<Rightarrow> outcome \<Rightarrow> (js_error + TokenData) option" where
  "resolves_to s out =
     (case out of
        Cached t \<Rightarrow> Some (Inr t)
      | Joined q \<Rightarrow> if q < length (fetches s) then settled (fetches s ! q) else None
      | Started q \<Rightarrow> if q < length (fetches s) then settled (fetches s ! q) else None)"

text \<open>The fetches of a provider that are in flight.\<close>

definition in_flight :: "state \<Rightarrow> string \<Rightarrow> nat list" where
  "in_flight s providerId =
     filter (\<lambda>q. owner (fetches s ! q) = providerId \<and> settled (fetches s ! q) = None)
       [0 ..< length (fetches s)]"

subsection \<open>Interleavings\<close>

text \<open>
  The program suspends only at its \<^verbatim>\<open>await\<close>s, so a run of concurrent callers is a
  sequence of the steps above, in any order, with the clock moving between them.
\<close>

datatype event =
    GetToken string OAuthConfig
  | Settle nat "js_error + response"
  | Resume nat
  | Invalidate string
  | Tick int

fun step :: "state \<Rightarrow> event \<Rightarrow> state" where
  "step s (GetToken providerId config) = snd (getToken_call providerId config s)"
| "step s (Settle q r) = settle q r s"
| "step s (Resume q) = resume q s"
| "step s (Invalidate providerId) = invalidate providerId s"
| "step s (Tick t) = s\<lparr>now := t\<rparr>"

definition run :: "state \<Rightarrow> event list \<Rightarrow> state" where
  "run s evs = foldl step s evs"

text \<open>The outcomes of the \<^verbatim>\<open>getToken\<close> calls of a run, in order.\<close>

fun outcomes :: "state \<Rightarrow> event list \<Rightarrow> outcome list" where
  "outcomes s [] = []"
| "outcomes s (GetToken providerId config # evs) =
     fst (getToken_call providerId config s) # outcomes (step s (GetToken providerId config)) evs"
| "outcomes s (e # evs) = outcomes (step s e) evs"

definition initial :: state where
  "initial = \<lparr>tokenCache = Map.empty, fetches = [], sent = [], now = 0\<rparr>"

section \<open>One caller at a time\<close>

text \<open>
  A run in which a caller is not interleaved with others is fixed by what the
  environment answers: the outcome of the \<open>n\<close>-th call of the transport of the run, and
  the reading of the clock when that outcome arrives.
\<close>

record env =
  transport :: "nat \<Rightarrow> js_error + response"
  clock :: "nat \<Rightarrow> int"

text \<open>\<^verbatim>\<open>await originalFetch(input, init)\<close>, the transport saved at line 75.\<close>

definition originalFetch ::
  "env \<Rightarrow> RequestInfo \<Rightarrow> RequestInit option \<Rightarrow> state \<Rightarrow> (js_error + response) \<times> state" where
  "originalFetch env input init s =
     (let n = length (sent s)
      in (transport env n,
          s\<lparr>sent := sent s @ [\<lparr>call_input = input, call_init = init\<rparr>], now := clock env n\<rparr>))"

text \<open>Awaiting the promise of fetch \<open>q\<close> of the state: the fetch completes if it is
  still in flight, the call that started it resumes, and the settlement is handed
  over.\<close>

definition await_promise :: "env \<Rightarrow> nat \<Rightarrow> state \<Rightarrow> (js_error + TokenData) \<times> state" where
  "await_promise env q s =
     (let n = request_ix (fetches s ! q)
      in case settled (fetches s ! q) of
           Some r \<Rightarrow> (r, resume q s)
         | None \<Rightarrow>
             (fetchToken_result (transport env n) (clock env n),
              resume q (settle q (transport env n) (s\<lparr>now := clock env n\<rparr>))))"

definition getToken ::
  "env \<Rightarrow> string \<Rightarrow> OAuthConfig \<Rightarrow> state \<Rightarrow> (js_error + TokenData) \<times> state" where
  "getToken env providerId config s =
     (case getToken_call providerId config s of
        (Cached t, s') \<Rightarrow> (Inr t, s')
      | (Joined q, s') \<Rightarrow> await_promise env q s'
      | (Started q, s') \<Rightarrow> await_promise env q s')"

section \<open>The fetch interceptor\<close>

text \<open>Lines 272-277.\<close>

fun url_of :: "RequestInfo \<Rightarrow> string" where
  "url_of (Str u) = u"
| "url_of (URL u) = u"
| "url_of (Request u) = u"

text \<open>The loop of lines 280-312 leaves at the first provider whose \<^verbatim>\<open>baseURL\<close> the
  url starts with.\<close>

fun find_provider :: "providers \<Rightarrow> string \<Rightarrow> (string \<times> provider) option" where
  "find_provider [] url = None"
| "find_provider ((providerId, config) # rest) url =
     (if prefix (baseURL config) url then Some (providerId, config)
      else find_provider rest url)"

text \<open>The object \<^verbatim>\<open>{ ...init, headers }\<close>.\<close>

definition with_headers :: "RequestInit option \<Rightarrow> Headers \<Rightarrow> RequestInit" where
  "with_headers init headers =
     (case init of
        None \<Rightarrow> \<lparr>init_method = None, init_headers = Some (HeadersObject headers),
                 init_body = None\<rparr>
      | Some i \<Rightarrow> i\<lparr>init_headers := Some (HeadersObject headers)\<rparr>)"

definition headers_of :: "RequestInit option \<Rightarrow> HeadersInit option" where
  "headers_of init = Option.bind init init_headers"

text \<open>Lines 271-316. The \<^verbatim>\<open>catch\<close> of line 307 logs and rethrows, also what
  \<^verbatim>\<open>new Headers\<close> and \<^verbatim>\<open>headers.set\<close> throw.\<close>

definition interceptor ::
  "env \<Rightarrow> providers \<Rightarrow> RequestInfo \<Rightarrow> RequestInit option \<Rightarrow> state
     \<Rightarrow> (js_error + response) \<times> state" where
  "interceptor env providers input init s =
     (case find_provider providers (url_of input) of
        None \<Rightarrow> originalFetch env input init s
      | Some (providerId, config) \<Rightarrow>
          (case getToken env providerId (oauth config) s of
             (Inl e, s1) \<Rightarrow> (Inl e, s1)
           | (Inr tok, s1) \<Rightarrow>
               (case new_Headers (headers_of init) of
                  Inl e \<Rightarrow> (Inl e, s1)
                | Inr created \<Rightarrow>
                    (case Headers_set created ''Authorization'' (authorization tok) of
                       Inl e \<Rightarrow> (Inl e, s1)
                     | Inr headers \<Rightarrow>
                         (case originalFetch env input (Some (with_headers init headers)) s1 of
                            (Inl e, s2) \<Rightarrow> (Inl e, s2)
                          | (Inr res, s2) \<Rightarrow>
                              if res_status res = 401 then
                                (case getToken env providerId (oauth config)
                                        (invalidate providerId s2) of
                                   (Inl e, s3) \<Rightarrow> (Inl e, s3)
                                 | (Inr newToken, s3) \<Rightarrow>
                                     (case Headers_set headers ''Authorization''
                                             (authorization newToken) of
                                        Inl e \<Rightarrow> (Inl e, s3)
                                      | Inr headers' \<Rightarrow>
                                          originalFetch env input
                                            (Some (with_headers init headers')) s3))
                              else (Inr res, s2))))))"

subsection \<open>Installation\<close>

text \<open>
  Function values that \<^verbatim>\<open>globalThis.fetch\<close> may hold: \<open>Native n\<close> is a function this
  module did not make, \<open>Interceptor f\<close> the closure of line 271 made while the module's
  constant \<^verbatim>\<open>originalFetch\<close> is \<open>f\<close>; all its calls of the transport go to \<open>f\<close>.
\<close>

datatype fetch_fn = Native nat | Interceptor fetch_fn

fun callee :: "fetch_fn \<Rightarrow> fetch_fn option" where
  "callee (Native n) = None"
| "callee (Interceptor f) = Some f"

text \<open>Lines 268-319: the new value of \<^verbatim>\<open>globalThis.fetch\<close>, from the module's constant
  and the current value.\<close>

definition installFetchInterceptor :: "fetch_fn \<Rightarrow> fetch_fn \<Rightarrow> fetch_fn" where
  "installFetchInterceptor original global_fetch =
     (if global_fetch \<noteq> original then global_fetch else Interceptor original)"

section \<open>Predicates and scenarios used in the statements\<close>

text \<open>No cached token passes the test of line 148.\<close>

definition no_usable_token :: "state \<Rightarrow> string \<Rightarrow> bool" where
  "no_usable_token s providerId \<longleftrightarrow>
     (case cached_token s providerId of
        None \<Rightarrow> True
      | Some t \<Rightarrow> \<not> expiresAt t > now s + 60000)"

text \<open>Every fetch whose starter has not resumed sits in the promise slot of its
  provider, and a starter resumes only after the settlement.\<close>

definition tracked :: "state \<Rightarrow> bool" where
  "tracked s \<longleftrightarrow>
     (\<forall>q < length (fetches s).
        (if resumed (fetches s ! q) then settled (fetches s ! q) \<noteq> None
         else cached_promise s (owner (fetches s ! q)) = Some q))"

fun is_Invalidate :: "event \<Rightarrow> bool" where
  "is_Invalidate (Invalidate providerId) = True"
| "is_Invalidate e = False"

text \<open>A gateway \<open>gw\<close>, responses of its issuer and of its API, and cache states.\<close>

definition gw_config :: OAuthConfig where
  "gw_config = \<lparr>tokenUrl = ''https://auth.example.com/oauth/token'', clientId = ''client'',
                 clientSecret = ''secret'', scope = None\<rparr>"

definition gw_providers :: providers where
  "gw_providers = [(''gw'', \<lparr>baseURL = ''https://api.example.com/v1'', oauth = gw_config\<rparr>)]"

definition issued :: "string \<Rightarrow> string option \<Rightarrow> int option \<Rightarrow> response" where
  "issued a ty l =
     \<lparr>res_status = 200, res_text = Inr [],
      res_json = Inr \<lparr>access_token = Some a, token_type = ty, expires_in = l\<rparr>\<rparr>"

definition reply :: "nat \<Rightarrow> string \<Rightarrow> response" where
  "reply st body =
     \<lparr>res_status = st, res_text = Inr body, res_json = Inl (Failure ''SyntaxError'')\<rparr>"

text \<open>A response whose body cannot be read.\<close>

definition unreadable :: "nat \<Rightarrow> response" where
  "unreadable st =
     \<lparr>res_status = st, res_text = Inl (Failure ''body stream''),
      res_json = Inl (Failure ''body stream'')\<rparr>"

definition bearer :: "string \<Rightarrow> int \<Rightarrow> TokenData" where
  "bearer a e = \<lparr>accessToken = Some a, tokenType = ''Bearer'', expiresAt = e\<rparr>"

text \<open>The clock at \<open>0\<close>, token \<open>t\<close> cached for \<open>gw\<close> and no fetch pending.\<close>

definition holding :: "TokenData \<Rightarrow> state" where
  "holding t = initial\<lparr>tokenCache := [''gw'' \<mapsto> \<lparr>token = Some t, promise = None\<rparr>]\<rparr>"

text \<open>The issuer grants \<open>tok1\<close>, the API rejects it with 401, the issuer grants
  \<open>tok2\<close>, the API answers 200.\<close>

definition retry_env :: env where
  "retry_env =
     \<lparr>transport = (\<lambda>n. if n = 0 then Inr (issued ''tok1'' None (Some 3600))
                        else if n = 1 then Inr (reply 401 ''expired'')
                        else if n = 2 then Inr (issued ''tok2'' None (Some 60))
                        else Inr (reply 200 ''ok'')),
      clock = (\<lambda>n. 1000 * int n)\<rparr>"

text \<open>The API rejects every request with 401.\<close>

definition rejecting_env :: env where
  "rejecting_env =
     \<lparr>transport = (\<lambda>n. if n = 0 then Inr (issued ''tok1'' None (Some 3600))
                        else if n = 2 then Inr (issued ''tok2'' None (Some 60))
                        else Inr (reply 401 ''expired'')),
      clock = (\<lambda>n. 1000 * int n)\<rparr>"

text \<open>As before, but the second token holds a line feed.\<close>

definition broken_env :: env where
  "broken_env =
     \<lparr>transport = (\<lambda>n. if n = 0 then Inr (issued ''tok1'' None (Some 3600))
                        else if n = 2
                          then Inr (issued (''tok'' @ [char_of (10::nat)] @ ''2'') None (Some 60))
                        else Inr (reply 401 ''expired'')),
      clock = (\<lambda>n. 1000 * int n)\<rparr>"

text \<open>The issuer answers 500.\<close>

definition failing_env :: env where
  "failing_env = \<lparr>transport = (\<lambda>n. Inr (reply 500 ''boom'')), clock = (\<lambda>n. 0)\<rparr>"

text \<open>The issuer answers 502 and the body cannot be read.\<close>

definition unreadable_env :: env where
  "unreadable_env = \<lparr>transport = (\<lambda>n. Inr (unreadable 502)), clock = (\<lambda>n. 0)\<rparr>"

section \<open>Auxiliary facts\<close>

lemma string_of_nat_500: "string_of_nat 500 = ''500''"
  by code_simp

lemma sent_settle [simp]: "sent (settle q r s) = sent s"
  by (simp add: settle_def)

lemma sent_resume [simp]: "sent (resume q s) = sent s"
  by (simp add: resume_def split: option.splits sum.splits)

lemma length_fetches_settle [simp]: "length (fetches (settle q r s)) = length (fetches s)"
  by (simp add: settle_def)

lemma length_fetches_resume [simp]: "length (fetches (resume q s)) = length (fetches s)"
  by (simp add: resume_def split: option.splits sum.splits)

lemma tokenCache_originalFetch [simp]:
  "tokenCache (snd (originalFetch env input init s)) = tokenCache s"
  by (simp add: originalFetch_def Let_def)

lemma lower_Authorization: "lower ''Authorization'' = ''authorization''"
  by code_simp

lemma name_Authorization: "is_header_name ''Authorization''"
  by code_simp

lemma Headers_set_Authorization:
  "Headers_set h ''Authorization'' v =
     (if is_header_value (normalize_value v)
      then Inr (h(''authorization'' \<mapsto> normalize_value v))
      else Inl TypeError)"
  by (simp add: Headers_set_def Let_def lower_Authorization name_Authorization)

lemma find_provider_None:
  "find_provider ps url = None \<longleftrightarrow> (\<forall>(providerId, c) \<in> set ps. \<not> prefix (baseURL c) url)"
  by (induction ps url rule: find_provider.induct) auto

lemma Interceptor_neq: "Interceptor f \<noteq> f"
  by (induction f) auto

lemma callee_neq: "callee f \<noteq> Some f"
  by (cases f) (simp_all add: Interceptor_neq[symmetric])

subsection \<open>The synchronous part of getToken\<close>

lemma getToken_call_Started:
  assumes "getToken_call p cfg s = (Started q, s')"
  shows "q = length (fetches s) \<and> s' = snd (start_fetch p cfg s) \<and> cached_promise s p = None"
  using assms
  by (auto simp: getToken_call_def start_fetch_def Let_def split: option.splits if_splits)

lemma getToken_call_state:
  "snd (getToken_call p cfg s) = s \<or>
   (cached_promise s p = None \<and> snd (getToken_call p cfg s) = snd (start_fetch p cfg s))"
  by (auto simp: getToken_call_def split: option.splits)

lemma getToken_call_join:
  assumes "cached_promise s p = Some q" and "no_usable_token s p"
  shows "getToken_call p cfg s = (Joined q, s)"
  using assms by (auto simp: getToken_call_def no_usable_token_def split: option.splits)

lemma getToken_call_start:
  assumes "cached_promise s p = None" and "no_usable_token s p"
  shows "getToken_call p cfg s = start_fetch p cfg s"
  using assms by (auto simp: getToken_call_def no_usable_token_def split: option.splits)

lemma getToken_call_invalidate:
  "getToken_call p cfg (invalidate p s) = start_fetch p cfg (invalidate p s)"
  by (simp add: getToken_call_def invalidate_def cached_token_def cached_promise_def)

subsection \<open>getToken run to its end\<close>

lemma getToken_Started:
  assumes "getToken_call p cfg s = (Started q, s1)"
  shows "fst (getToken env p cfg s) =
           fetchToken_result (transport env (length (sent s))) (clock env (length (sent s)))"
proof -
  from getToken_call_Started[OF assms]
  have q: "q = length (fetches s)" and s1: "s1 = snd (start_fetch p cfg s)" by simp_all
  have "getToken env p cfg s = await_promise env q s1"
    using assms by (simp add: getToken_def)
  then show ?thesis
    by (simp add: await_promise_def q s1 start_fetch_def Let_def)
qed

lemma getToken_invalidate:
  "getToken env p cfg (invalidate p s) =
     (fetchToken_result (transport env (length (sent s))) (clock env (length (sent s))),
      resume (length (fetches s))
        (settle (length (fetches s)) (transport env (length (sent s)))
           ((snd (start_fetch p cfg (invalidate p s)))\<lparr>now := clock env (length (sent s))\<rparr>)))"
proof -
  have "getToken env p cfg (invalidate p s) =
      await_promise env (length (fetches s)) (snd (start_fetch p cfg (invalidate p s)))"
    by (simp add: getToken_def getToken_call_invalidate)
       (simp add: start_fetch_def Let_def invalidate_def)
  then show ?thesis
    by (simp add: await_promise_def start_fetch_def Let_def invalidate_def)
qed

lemma getToken_invalidate_sent:
  "sent (snd (getToken env p cfg (invalidate p s))) = sent s @ [token_request cfg]"
  by (simp add: getToken_invalidate) (simp add: start_fetch_def Let_def invalidate_def)

lemma getToken_invalidate_fetches:
  "length (fetches (snd (getToken env p cfg (invalidate p s)))) = Suc (length (fetches s))"
  by (simp add: getToken_invalidate) (simp add: start_fetch_def Let_def invalidate_def)

lemma getToken_invalidate_cache:
  "tokenCache (snd (getToken env p cfg (invalidate p s))) p =
     Some \<lparr>token = (case fetchToken_result (transport env (length (sent s)))
                            (clock env (length (sent s))) of
                      Inl e \<Rightarrow> None | Inr t \<Rightarrow> Some t),
           promise = None\<rparr>"
  by (simp add: getToken_invalidate)
     (simp add: start_fetch_def Let_def invalidate_def settle_def resume_def cached_token_def
        split: sum.splits)

subsection \<open>What a run leaves untouched in a fetch\<close>

lemma step_fetch_frame:
  assumes "q < length (fetches s)"
  shows "q < length (fetches (step s e))
       \<and> owner (fetches (step s e) ! q) = owner (fetches s ! q)
       \<and> existingToken (fetches (step s e) ! q) = existingToken (fetches s ! q)"
proof (cases e)
  case (GetToken p cfg)
  then show ?thesis
    using assms getToken_call_state[of p cfg s]
    by (auto simp: start_fetch_def Let_def nth_append)
next
  case (Settle q' r)
  then show ?thesis using assms
    by (auto simp: settle_def nth_list_update)
next
  case (Resume q')
  then show ?thesis using assms
    by (auto simp: resume_def nth_list_update split: option.splits sum.splits)
next
  case (Invalidate p)
  then show ?thesis using assms by (simp add: invalidate_def)
next
  case (Tick t)
  then show ?thesis using assms by simp
qed

lemma run_fetch_frame:
  assumes "q < length (fetches s)"
  shows "q < length (fetches (run s evs))
       \<and> owner (fetches (run s evs) ! q) = owner (fetches s ! q)
       \<and> existingToken (fetches (run s evs) ! q) = existingToken (fetches s ! q)"
  using assms
proof (induction evs arbitrary: s)
  case Nil
  then show ?case by (simp add: run_def)
next
  case (Cons e evs)
  have "run s (e # evs) = run (step s e) evs" by (simp add: run_def)
  then show ?case
    using Cons.IH[of "step s e"] step_fetch_frame[OF Cons.prems, of e] by simp
qed

subsection \<open>Runs without a deletion keep every pending fetch in its slot\<close>

lemma tracked_initial: "tracked initial"
  by (simp add: tracked_def initial_def)

lemma tracked_start_fetch:
  assumes "tracked s" "cached_promise s p = None"
  shows "tracked (snd (start_fetch p cfg s))"
  unfolding tracked_def
proof (intro allI impI)
  fix q
  let ?s' = "snd (start_fetch p cfg s)"
  assume "q < length (fetches ?s')"
  then have "q < length (fetches s) \<or> q = length (fetches s)"
    by (auto simp: start_fetch_def Let_def)
  then show "if resumed (fetches ?s' ! q) then settled (fetches ?s' ! q) \<noteq> None
             else cached_promise ?s' (owner (fetches ?s' ! q)) = Some q"
  proof
    assume lt: "q < length (fetches s)"
    then have same: "fetches ?s' ! q = fetches s ! q"
      by (simp add: start_fetch_def Let_def nth_append)
    from assms(1) lt
    have old: "if resumed (fetches s ! q) then settled (fetches s ! q) \<noteq> None
               else cached_promise s (owner (fetches s ! q)) = Some q"
      by (simp add: tracked_def)
    show ?thesis
    proof (cases "resumed (fetches s ! q)")
      case True
      with old same show ?thesis by simp
    next
      case False
      with old have cp: "cached_promise s (owner (fetches s ! q)) = Some q" by simp
      with assms(2) have "owner (fetches s ! q) \<noteq> p" by auto
      then have "cached_promise ?s' (owner (fetches s ! q)) =
                 cached_promise s (owner (fetches s ! q))"
        by (simp add: start_fetch_def Let_def cached_promise_def)
      with cp False same show ?thesis by simp
    qed
  next
    assume "q = length (fetches s)"
    then show ?thesis
      by (simp add: start_fetch_def Let_def cached_promise_def)
  qed
qed

lemma tracked_settle:
  assumes "tracked s"
  shows "tracked (settle q r s)"
  using assms
  by (auto simp: tracked_def settle_def nth_list_update cached_promise_def)

lemma tracked_resume:
  assumes "tracked s"
  shows "tracked (resume q s)"
proof (cases "q < length (fetches s) \<and> \<not> resumed (fetches s ! q)
                \<and> settled (fetches s ! q) \<noteq> None")
  case False
  then have "resume q s = s"
    by (auto simp: resume_def split: option.splits)
  with assms show ?thesis by simp
next
  case True
  then obtain r where r: "settled (fetches s ! q) = Some r" by auto
  let ?o = "owner (fetches s ! q)"
  let ?s' = "resume q s"
  from True assms have cq: "cached_promise s ?o = Some q"
    by (auto simp: tracked_def)
  have fs: "fetches ?s' = (fetches s)[q := (fetches s ! q)\<lparr>resumed := True\<rparr>]"
    using True r by (cases r) (simp_all add: resume_def)
  have cache_other: "\<And>p. p \<noteq> ?o \<Longrightarrow> cached_promise ?s' p = cached_promise s p"
    using True r by (cases r) (simp_all add: resume_def cached_promise_def)
  show ?thesis
    unfolding tracked_def
  proof (intro allI impI)
    fix q'
    assume "q' < length (fetches ?s')"
    then have lt: "q' < length (fetches s)" by (simp add: fs)
    from assms lt
    have old: "if resumed (fetches s ! q') then settled (fetches s ! q') \<noteq> None
               else cached_promise s (owner (fetches s ! q')) = Some q'"
      by (simp add: tracked_def)
    show "if resumed (fetches ?s' ! q') then settled (fetches ?s' ! q') \<noteq> None
          else cached_promise ?s' (owner (fetches ?s' ! q')) = Some q'"
    proof (cases "q' = q")
      case True
      then show ?thesis using lt r by (simp add: fs)
    next
      case False
      then have same: "fetches ?s' ! q' = fetches s ! q'" by (simp add: fs)
      show ?thesis
      proof (cases "resumed (fetches s ! q')")
        case True
        with old same show ?thesis by simp
      next
        case unres: False
        with old have "cached_promise s (owner (fetches s ! q')) = Some q'" by simp
        with cq False have "owner (fetches s ! q') \<noteq> ?o" by auto
        with cache_other old unres same show ?thesis by simp
      qed
    qed
  qed
qed

lemma tracked_step:
  assumes "tracked s" "\<not> is_Invalidate e"
  shows "tracked (step s e)"
proof (cases e)
  case (GetToken p cfg)
  then show ?thesis
    using assms(1) getToken_call_state[of p cfg s] tracked_start_fetch[of s p cfg]
    by auto
next
  case (Settle q r)
  then show ?thesis using assms(1) by (simp add: tracked_settle)
next
  case (Resume q)
  then show ?thesis using assms(1) by (simp add: tracked_resume)
next
  case (Invalidate p)
  then show ?thesis using assms(2) by simp
next
  case (Tick t)
  then show ?thesis using assms(1) by (auto simp: tracked_def cached_promise_def)
qed

lemma tracked_run:
  assumes "tracked s" "\<forall>e \<in> set evs. \<not> is_Invalidate e"
  shows "tracked (run s evs)"
  using assms
proof (induction evs arbitrary: s)
  case Nil
  then show ?case by (simp add: run_def)
next
  case (Cons e evs)
  have "run s (e # evs) = run (step s e) evs" by (simp add: run_def)
  then show ?case using Cons tracked_step[of s e] by simp
qed

lemma tracked_in_flight:
  assumes "tracked s"
  shows "length (in_flight s p) \<le> 1"
proof -
  have d: "distinct (in_flight s p)" by (simp add: in_flight_def)
  have "\<And>q. q \<in> set (in_flight s p) \<Longrightarrow> cached_promise s p = Some q"
  proof -
    fix q assume "q \<in> set (in_flight s p)"
    then have q: "q < length (fetches s)" "owner (fetches s ! q) = p"
      "settled (fetches s ! q) = None"
      by (auto simp: in_flight_def)
    with assms show "cached_promise s p = Some q"
      by (auto simp: tracked_def split: if_splits)
  qed
  then have same: "\<And>q q'. q \<in> set (in_flight s p) \<Longrightarrow> q' \<in> set (in_flight s p) \<Longrightarrow> q = q'"
    by (metis option.inject)
  show ?thesis
  proof (cases "in_flight s p")
    case Nil
    then show ?thesis by simp
  next
    case (Cons a as)
    show ?thesis
    proof (cases as)
      case Nil
      with Cons show ?thesis by simp
    next
      case (Cons b bs)
      with \<open>in_flight s p = a # as\<close> have "a = b" "a \<noteq> b"
        using same[of a b] d by auto
      then show ?thesis by simp
    qed
  qed
qed

text \<open>
  As long as no cache entry is deleted, callers of \<^verbatim>\<open>getToken\<close> never have two
  fetches of one provider in flight, however they are interleaved.
\<close>

lemma single_flight_without_invalidate:
  assumes "\<forall>e \<in> set evs. \<not> is_Invalidate e"
  shows "length (in_flight (run initial evs) p) \<le> 1"
  using tracked_in_flight[OF tracked_run[OF tracked_initial assms]] .

lemma outcomes_join:
  assumes "cached_promise s p = Some q" and "no_usable_token s p"
  shows "outcomes s (replicate n (GetToken p cfg)) = replicate n (Joined q)
       \<and> run s (replicate n (GetToken p cfg)) = s"
  using assms
  by (induction n) (simp_all add: run_def getToken_call_join)

text \<open>
  Callers that arrive together with no usable token and no fetch pending: the first
  starts the one fetch (one token request), all the others await its promise.
\<close>

lemma concurrent_callers_share_fetch:
  assumes "cached_promise s p = None" and "no_usable_token s p"
  shows "outcomes s (replicate (Suc n) (GetToken p cfg)) =
           Started (length (fetches s)) # replicate n (Joined (length (fetches s)))
       \<and> sent (run s (replicate (Suc n) (GetToken p cfg))) = sent s @ [token_request cfg]
       \<and> in_flight (run s (replicate (Suc n) (GetToken p cfg))) p =
           in_flight s p @ [length (fetches s)]"
proof -
  let ?s1 = "snd (start_fetch p cfg s)"
  have call: "getToken_call p cfg s = (Started (length (fetches s)), ?s1)"
    by (simp add: getToken_call_start[OF assms] start_fetch_def Let_def)
  have cp: "cached_promise ?s1 p = Some (length (fetches s))"
    by (simp add: start_fetch_def Let_def cached_promise_def)
  have nu: "no_usable_token ?s1 p"
    using assms(2)
    by (auto simp: no_usable_token_def start_fetch_def Let_def cached_token_def
          split: option.splits)
  have rest: "outcomes ?s1 (replicate n (GetToken p cfg)) =
                replicate n (Joined (length (fetches s)))
       \<and> run ?s1 (replicate n (GetToken p cfg)) = ?s1"
    by (rule outcomes_join[OF cp nu])
  have r: "run s (replicate (Suc n) (GetToken p cfg)) = ?s1"
    using rest call by (simp add: run_def)
  have fl: "in_flight ?s1 p = in_flight s p @ [length (fetches s)]"
  proof -
    have "filter (\<lambda>q. owner ((fetches ?s1) ! q) = p \<and> settled ((fetches ?s1) ! q) = None)
            [0 ..< length (fetches s)]
        = filter (\<lambda>q. owner (fetches s ! q) = p \<and> settled (fetches s ! q) = None)
            [0 ..< length (fetches s)]"
      by (rule filter_cong) (simp_all add: start_fetch_def Let_def nth_append)
    then show ?thesis
      by (simp add: in_flight_def) (simp add: start_fetch_def Let_def)
  qed
  show ?thesis using call rest r fl by (simp add: start_fetch_def Let_def)
qed

section \<open>The claims\<close>

subsection \<open>C1: single-flight deduplication\<close>

text \<open>
  Claim C1: for every destination at most one token fetch is in flight at any time, and
  concurrent acquisitions with no usable cached token issue one token request and
  resolve to one value. \<^verbatim>\<open>getToken\<close> alone keeps this (the two lemmas above), but the
  interceptor deletes the whole cache entry at line 297, pending promise included,
  before it calls \<^verbatim>\<open>getToken\<close> again. Two requests that were sent with the cached
  token and are both answered 401 run lines 297-298 one after the other: each
  starts a fetch of its own, both are in flight together, two token requests are
  sent, and the two callers resolve to different tokens.
\<close>

theorem concurrent_401_two_fetches:
  "outcomes (holding (bearer ''revoked'' 3600000))
     [Invalidate ''gw'', GetToken ''gw'' gw_config,
      Invalidate ''gw'', GetToken ''gw'' gw_config] = [Started 0, Started 1]
   \<and> in_flight (run (holding (bearer ''revoked'' 3600000))
        [Invalidate ''gw'', GetToken ''gw'' gw_config,
         Invalidate ''gw'', GetToken ''gw'' gw_config]) ''gw'' = [0, 1]
   \<and> sent (run (holding (bearer ''revoked'' 3600000))
        [Invalidate ''gw'', GetToken ''gw'' gw_config,
         Invalidate ''gw'', GetToken ''gw'' gw_config])
       = [token_request gw_config, token_request gw_config]
   \<and> resolves_to (run (holding (bearer ''revoked'' 3600000))
        [Invalidate ''gw'', GetToken ''gw'' gw_config,
         Invalidate ''gw'', GetToken ''gw'' gw_config,
         Settle 0 (Inr (issued ''tokA'' None None)),
         Settle 1 (Inr (issued ''tokB'' None None))]) (Started 0)
       = Some (Inr (bearer ''tokA'' 3600000))
   \<and> resolves_to (run (holding (bearer ''revoked'' 3600000))
        [Invalidate ''gw'', GetToken ''gw'' gw_config,
         Invalidate ''gw'', GetToken ''gw'' gw_config,
         Settle 0 (Inr (issued ''tokA'' None None)),
         Settle 1 (Inr (issued ''tokB'' None None))]) (Started 1)
       = Some (Inr (bearer ''tokB'' 3600000))"
  by (simp add: run_def holding_def initial_def bearer_def issued_def getToken_call_def
        start_fetch_def cached_token_def cached_promise_def invalidate_def in_flight_def
        settle_def resolves_to_def fetchToken_result_def ok_def str_or_def num_or_def
        upt_rec)

subsection \<open>C2: expiry margin\<close>

text \<open>
  Claim C2: with a token cached for the destination, \<^verbatim>\<open>getToken\<close> returns it, leaving
  the state as it is (no request is sent), exactly when its \<^verbatim>\<open>expiresAt\<close> exceeds the
  current time by more than 60000 ms. At 61 s it is returned. At 59 s it is not: a
  new fetch is started and its token request sent, or, if a fetch is already
  pending, that one is awaited.
\<close>

theorem getToken_expiry_margin:
  assumes "tokenCache s providerId = Some c" and "token c = Some t"
  shows "(getToken_call providerId config s = (Cached t, s) \<longleftrightarrow> expiresAt t > now s + 60000)
       \<and> (expiresAt t = now s + 61000 \<longrightarrow> getToken_call providerId config s = (Cached t, s))
       \<and> (expiresAt t = now s + 59000 \<longrightarrow>
            (case promise c of
               None \<Rightarrow>
                 fst (getToken_call providerId config s) = Started (length (fetches s))
               \<and> sent (snd (getToken_call providerId config s)) = sent s @ [token_request config]
             | Some q \<Rightarrow> getToken_call providerId config s = (Joined q, s)))"
  using assms
  by (auto simp: getToken_call_def cached_token_def cached_promise_def start_fetch_def Let_def
        split: option.splits)

theorem getToken_expiry_margin_witness:
  "getToken_call ''gw'' gw_config (holding (bearer ''tok1'' 61000))
     = (Cached (bearer ''tok1'' 61000), holding (bearer ''tok1'' 61000))
   \<and> fst (getToken_call ''gw'' gw_config (holding (bearer ''tok1'' 59000))) = Started 0
   \<and> sent (snd (getToken_call ''gw'' gw_config (holding (bearer ''tok1'' 59000))))
       = [token_request gw_config]"
  using getToken_expiry_margin [of "holding (bearer ''tok1'' 61000)" "''gw''"
          "\<lparr>token = Some (bearer ''tok1'' 61000), promise = None\<rparr>" "bearer ''tok1'' 61000"
          gw_config]
        getToken_expiry_margin [of "holding (bearer ''tok1'' 59000)" "''gw''"
          "\<lparr>token = Some (bearer ''tok1'' 59000), promise = None\<rparr>" "bearer ''tok1'' 59000"
          gw_config]
  by (simp add: holding_def initial_def bearer_def)

subsection \<open>C3: one retry after a 401\<close>

text \<open>
  Claim C3: for a request matching a registered destination, once a token has been
  acquired, the Authorization header set and the first response has arrived: a
  response other than 401 is returned as it is, after that single call. After a 401
  the cache entry is deleted and a fresh token fetch is forced (a new token request
  is sent whatever the cache held); the Authorization header is set again, to the
  new token's type and value, the request is sent once more with the caller's input,
  method, body and other headers, and the outcome of that second call is returned
  whatever its status, with no further call. Should the forced fetch fail, or the
  new token make an illegal header value, the error is thrown and nothing is resent.
  Every call received by the transport is spelled out field by field.
\<close>

theorem interceptor_retry_once:
  assumes match: "find_provider providers (url_of input) = Some (providerId, config)"
      and tok: "getToken env providerId (oauth config) s = (Inr tok, s1)"
      and created: "new_Headers (Option.bind init init_headers) = Inr created"
      and legal: "is_header_value (normalize_value
                    (tokenType tok @ '' '' @
                       (case accessToken tok of None \<Rightarrow> ''undefined'' | Some a \<Rightarrow> a)))"
      and first: "transport env (length (sent s1)) = Inr res"
  shows
   "(let n = length (sent s1);
         result = interceptor env providers input init s;
         credentials = (\<lambda>t. tokenType t @ '' '' @
                          (case accessToken t of None \<Rightarrow> ''undefined'' | Some a \<Rightarrow> a));
         request = (\<lambda>t. \<lparr>call_input = input,
                          call_init = Some
                            \<lparr>init_method = Option.bind init init_method,
                             init_headers = Some (HeadersObject
                               (created(''authorization'' \<mapsto> normalize_value (credentials t)))),
                             init_body = Option.bind init init_body\<rparr>\<rparr>)
     in (res_status res \<noteq> 401 \<longrightarrow>
           fst result = Inr res \<and> sent (snd result) = sent s1 @ [request tok])
      \<and> (res_status res = 401 \<longrightarrow>
           (case fetchToken_result (transport env (n + 1)) (clock env (n + 1)) of
              Inl e \<Rightarrow>
                fst result = Inl e
              \<and> sent (snd result) = sent s1 @ [request tok, token_request (oauth config)]
            | Inr newToken \<Rightarrow>
                if is_header_value (normalize_value (credentials newToken)) then
                  fst result = transport env (n + 2)
                \<and> sent (snd result)
                    = sent s1 @ [request tok, token_request (oauth config), request newToken]
                \<and> length (fetches (snd result)) = Suc (length (fetches s1))
                \<and> tokenCache (snd result) providerId
                    = Some \<lparr>token = Some newToken, promise = None\<rparr>
                else
                  fst result = Inl TypeError
                \<and> sent (snd result) = sent s1 @ [request tok, token_request (oauth config)])))"
proof -
  let ?n = "length (sent s1)"
  let ?cred = "\<lambda>t. tokenType t @ '' '' @
                     (case accessToken t of None \<Rightarrow> ''undefined'' | Some a \<Rightarrow> a)"
  let ?h = "\<lambda>t. created(''authorization'' \<mapsto> normalize_value (?cred t))"
  let ?request = "\<lambda>t. \<lparr>call_input = input,
                         call_init = Some
                           \<lparr>init_method = Option.bind init init_method,
                            init_headers = Some (HeadersObject (?h t)),
                            init_body = Option.bind init init_body\<rparr>\<rparr>"
  have wh: "\<And>h. with_headers init h =
              \<lparr>init_method = Option.bind init init_method,
               init_headers = Some (HeadersObject h),
               init_body = Option.bind init init_body\<rparr>"
    by (cases init) (simp_all add: with_headers_def)
  define h1 where "h1 = ?h tok"
  define c1 where "c1 = ?request tok"
  have c1: "c1 = \<lparr>call_input = input, call_init = Some (with_headers init h1)\<rparr>"
    by (simp add: c1_def h1_def wh)
  have set1: "Headers_set created ''Authorization'' (authorization tok) = Inr h1"
    using legal by (simp add: Headers_set_Authorization authorization_def h1_def)
  have set2: "\<And>t. Headers_set h1 ''Authorization'' (authorization t) =
                (if is_header_value (normalize_value (?cred t))
                 then Inr (?h t) else Inl TypeError)"
    by (simp add: Headers_set_Authorization authorization_def h1_def)
  let ?s2 = "s1\<lparr>sent := sent s1 @ [c1], now := clock env ?n\<rparr>"
  have of1: "originalFetch env input (Some (with_headers init h1)) s1 = (Inr res, ?s2)"
    using first by (simp add: originalFetch_def Let_def c1)
  have hd: "new_Headers (headers_of init) = Inr created"
    using created by (simp add: headers_of_def)
  show ?thesis
  proof (cases "res_status res = 401")
    case False
    then have "interceptor env providers input init s = (Inr res, ?s2)"
      using match tok hd set1 of1 by (simp add: interceptor_def)
    with False show ?thesis by (simp add: Let_def c1_def)
  next
    case True
    let ?r = "fetchToken_result (transport env (?n + 1)) (clock env (?n + 1))"
    let ?g = "getToken env providerId (oauth config) (invalidate providerId ?s2)"
    have g1: "fst ?g = ?r" by (simp add: getToken_invalidate)
    have g2: "sent (snd ?g) = sent s1 @ [c1, token_request (oauth config)]"
      by (simp add: getToken_invalidate_sent)
    have g3: "length (fetches (snd ?g)) = Suc (length (fetches s1))"
      by (simp add: getToken_invalidate_fetches)
    have g4: "tokenCache (snd ?g) providerId =
                Some \<lparr>token = (case ?r of Inl e \<Rightarrow> None | Inr t \<Rightarrow> Some t), promise = None\<rparr>"
      using getToken_invalidate_cache[of env providerId "oauth config" ?s2] by simp
    have i: "interceptor env providers input init s =
        (case ?g of (Inl e, s3) \<Rightarrow> (Inl e, s3)
         | (Inr newToken, s3) \<Rightarrow>
             (case Headers_set h1 ''Authorization'' (authorization newToken) of
                Inl e \<Rightarrow> (Inl e, s3)
              | Inr headers' \<Rightarrow>
                  originalFetch env input (Some (with_headers init headers')) s3))"
      using match tok hd set1 of1 True by (simp add: interceptor_def)
    obtain s3 where g: "?g = (?r, s3)"
      using g1 by (cases ?g) auto
    have s3: "sent s3 = sent s1 @ [c1, token_request (oauth config)]"
      "length (fetches s3) = Suc (length (fetches s1))"
      "tokenCache s3 providerId =
         Some \<lparr>token = (case ?r of Inl e \<Rightarrow> None | Inr t \<Rightarrow> Some t), promise = None\<rparr>"
      using g2 g3 g4 g by simp_all
    show ?thesis
    proof (cases ?r)
      case (Inl e)
      then have "interceptor env providers input init s = (Inl e, s3)"
        using i g by simp
      then show ?thesis using True Inl s3 by (simp add: Let_def c1_def)
    next
      case (Inr newToken)
      show ?thesis
      proof (cases "is_header_value (normalize_value (?cred newToken))")
        case legal2: True
        then have "interceptor env providers input init s =
            originalFetch env input (Some (with_headers init (?h newToken))) s3"
          using i g Inr by (simp add: set2)
        then show ?thesis
          using True Inr legal2 s3 by (simp add: Let_def originalFetch_def wh c1_def)
      next
        case illegal: False
        then have "interceptor env providers input init s = (Inl TypeError, s3)"
          using i g Inr by (simp add: set2)
        then show ?thesis using True Inr illegal s3 by (simp add: Let_def c1_def)
      qed
    qed
  qed
qed

theorem interceptor_retry_once_witness:
  "find_provider gw_providers (url_of (Str ''https://api.example.com/v1/models''))
     = Some (''gw'', \<lparr>baseURL = ''https://api.example.com/v1'', oauth = gw_config\<rparr>)
   \<and> fst (getToken retry_env ''gw'' gw_config initial) = Inr (bearer ''tok1'' 3600000)
   \<and> transport retry_env (length (sent (snd (getToken retry_env ''gw'' gw_config initial))))
       = Inr (reply 401 ''expired'')
   \<and> fst (interceptor retry_env gw_providers (Str ''https://api.example.com/v1/models'')
            None initial) = Inr (reply 200 ''ok'')
   \<and> sent (snd (interceptor retry_env gw_providers
            (Str ''https://api.example.com/v1/models'') None initial))
       = [token_request gw_config,
          \<lparr>call_input = Str ''https://api.example.com/v1/models'',
           call_init = Some \<lparr>init_method = None,
             init_headers = Some (HeadersObject [''authorization'' \<mapsto> ''Bearer tok1'']),
             init_body = None\<rparr>\<rparr>,
          token_request gw_config,
          \<lparr>call_input = Str ''https://api.example.com/v1/models'',
           call_init = Some \<lparr>init_method = None,
             init_headers = Some (HeadersObject [''authorization'' \<mapsto> ''Bearer tok2'']),
             init_body = None\<rparr>\<rparr>]
   \<and> fst (interceptor rejecting_env gw_providers (Str ''https://api.example.com/v1/models'')
            None initial) = Inr (reply 401 ''expired'')
   \<and> length (sent (snd (interceptor rejecting_env gw_providers
            (Str ''https://api.example.com/v1/models'') None initial))) = 4
   \<and> fst (interceptor broken_env gw_providers (Str ''https://api.example.com/v1/models'')
            None initial) = Inl TypeError
   \<and> length (sent (snd (interceptor broken_env gw_providers
            (Str ''https://api.example.com/v1/models'') None initial))) = 3"
proof -
  let ?input = "Str ''https://api.example.com/v1/models''"
  let ?gw = "\<lparr>baseURL = ''https://api.example.com/v1'', oauth = gw_config\<rparr>"
  let ?tok1 = "bearer ''tok1'' 3600000"
  have m: "find_provider gw_providers (url_of ?input) = Some (''gw'', ?gw)"
    by (simp add: gw_providers_def)
  have call: "getToken_call ''gw'' gw_config initial
                = (Started 0, snd (getToken_call ''gw'' gw_config initial))"
    by (simp add: getToken_call_def cached_token_def cached_promise_def initial_def
          start_fetch_def)
  have snt: "\<And>env. sent (snd (getToken env ''gw'' gw_config initial)) = [token_request gw_config]"
    by (simp add: getToken_def getToken_call_def cached_token_def cached_promise_def initial_def
          start_fetch_def await_promise_def)
  have t1: "fst (getToken retry_env ''gw'' gw_config initial) = Inr ?tok1"
    by (simp add: getToken_Started[OF call])
       (simp add: initial_def retry_env_def issued_def bearer_def
          fetchToken_result_def ok_def str_or_def num_or_def)
  have t2: "fst (getToken rejecting_env ''gw'' gw_config initial) = Inr ?tok1"
    by (simp add: getToken_Started[OF call])
       (simp add: initial_def rejecting_env_def issued_def bearer_def
          fetchToken_result_def ok_def str_or_def num_or_def)
  have t3: "fst (getToken broken_env ''gw'' gw_config initial) = Inr ?tok1"
    by (simp add: getToken_Started[OF call])
       (simp add: initial_def broken_env_def issued_def bearer_def
          fetchToken_result_def ok_def str_or_def num_or_def)
  have g1: "getToken retry_env ''gw'' (oauth ?gw) initial
        = (Inr ?tok1, snd (getToken retry_env ''gw'' gw_config initial))"
    using t1 by (simp add: prod_eq_iff)
  have g2: "getToken rejecting_env ''gw'' (oauth ?gw) initial
        = (Inr ?tok1, snd (getToken rejecting_env ''gw'' gw_config initial))"
    using t2 by (simp add: prod_eq_iff)
  have g3: "getToken broken_env ''gw'' (oauth ?gw) initial
        = (Inr ?tok1, snd (getToken broken_env ''gw'' gw_config initial))"
    using t3 by (simp add: prod_eq_iff)
  have cr: "new_Headers (Option.bind None init_headers) = Inr Map.empty"
    by simp
  have n1: "normalize_value ''Bearer tok1'' = ''Bearer tok1''"
    by code_simp
  have n2: "normalize_value ''Bearer tok2'' = ''Bearer tok2''"
    by code_simp
  have v1: "is_header_value ''Bearer tok1''"
    by code_simp
  have v2: "is_header_value ''Bearer tok2''"
    by code_simp
  have v3: "\<not> is_header_value (normalize_value (''Bearer'' @ '' '' @ ''tok'' @ [char_of (10::nat)] @ ''2''))"
    by code_simp
  have legal: "is_header_value (normalize_value
                 (tokenType ?tok1 @ '' '' @
                    (case accessToken ?tok1 of None \<Rightarrow> ''undefined'' | Some a \<Rightarrow> a)))"
    by (simp add: bearer_def n1 v1)
  have st: "res_status (reply 401 ''expired'') = 401"
    by (simp add: reply_def)
  have f1: "transport retry_env (length (sent (snd (getToken retry_env ''gw'' gw_config initial))))
              = Inr (reply 401 ''expired'')"
    by (simp add: snt retry_env_def)
  have f2: "transport rejecting_env
              (length (sent (snd (getToken rejecting_env ''gw'' gw_config initial))))
              = Inr (reply 401 ''expired'')"
    by (simp add: snt rejecting_env_def)
  have f3: "transport broken_env
              (length (sent (snd (getToken broken_env ''gw'' gw_config initial))))
              = Inr (reply 401 ''expired'')"
    by (simp add: snt broken_env_def)
  let ?s1 = "snd (getToken retry_env ''gw'' gw_config initial)"
  let ?s1' = "snd (getToken rejecting_env ''gw'' gw_config initial)"
  let ?s1'' = "snd (getToken broken_env ''gw'' gw_config initial)"
  have r2: "fetchToken_result (transport retry_env (length (sent ?s1) + 1))
              (clock retry_env (length (sent ?s1) + 1)) = Inr (bearer ''tok2'' 62000)"
    by (simp add: snt)
       (simp add: retry_env_def issued_def bearer_def fetchToken_result_def ok_def str_or_def
          num_or_def)
  have r2': "fetchToken_result (transport rejecting_env (length (sent ?s1') + 1))
              (clock rejecting_env (length (sent ?s1') + 1)) = Inr (bearer ''tok2'' 62000)"
    by (simp add: snt)
       (simp add: rejecting_env_def issued_def bearer_def fetchToken_result_def ok_def
          str_or_def num_or_def)
  have r2'': "fetchToken_result (transport broken_env (length (sent ?s1'') + 1))
              (clock broken_env (length (sent ?s1'') + 1))
                = Inr (bearer (''tok'' @ [char_of (10::nat)] @ ''2'') 62000)"
    by (simp add: snt)
       (simp add: broken_env_def issued_def bearer_def fetchToken_result_def ok_def
          str_or_def num_or_def)
  have tr3: "transport retry_env (length (sent ?s1) + 2) = Inr (reply 200 ''ok'')"
    by (simp add: snt) (simp add: retry_env_def)
  have tr3': "transport rejecting_env (length (sent ?s1') + 2) = Inr (reply 401 ''expired'')"
    by (simp add: snt) (simp add: rejecting_env_def)
  have a: "fst (interceptor retry_env gw_providers ?input None initial) = Inr (reply 200 ''ok'')
         \<and> sent (snd (interceptor retry_env gw_providers ?input None initial))
            = [token_request gw_config,
               \<lparr>call_input = ?input,
                call_init = Some \<lparr>init_method = None,
                  init_headers = Some (HeadersObject [''authorization'' \<mapsto> ''Bearer tok1'']),
                  init_body = None\<rparr>\<rparr>,
               token_request gw_config,
               \<lparr>call_input = ?input,
                call_init = Some \<lparr>init_method = None,
                  init_headers = Some (HeadersObject [''authorization'' \<mapsto> ''Bearer tok2'']),
                  init_body = None\<rparr>\<rparr>]"
    using interceptor_retry_once [OF m g1 cr legal f1] v2
    unfolding Let_def r2 tr3 st
    by (simp add: snt bearer_def n1 n2)
  have b: "fst (interceptor rejecting_env gw_providers ?input None initial)
             = Inr (reply 401 ''expired'')
         \<and> length (sent (snd (interceptor rejecting_env gw_providers ?input None initial))) = 4"
    using interceptor_retry_once [OF m g2 cr legal f2] v2
    unfolding Let_def r2' tr3' st
    by (simp add: snt bearer_def n1 n2)
  have c: "fst (interceptor broken_env gw_providers ?input None initial) = Inl TypeError
         \<and> length (sent (snd (interceptor broken_env gw_providers ?input None initial))) = 3"
    using interceptor_retry_once [OF m g3 cr legal f3] v3
    unfolding Let_def r2'' st
    by (simp add: snt bearer_def)
  show ?thesis using m t1 f1 a b c by simp
qed

subsection \<open>C4: a failed fetch leaves the cached token\<close>

text \<open>
  Claim C4: let a call of \<^verbatim>\<open>getToken\<close> start a fetch, and let it resume after the
  fetch has settled, whatever other callers did in between. After a failure the
  promise slot of the destination is empty and its token is the one that was cached
  when the fetch began; after a success the slot is empty and the new token is stored.
  The caller that started the fetch and every caller that joined it resolve to the
  settlement of the fetch, the error in case of a failure.
\<close>

theorem getToken_fetch_atomicity:
  assumes start: "getToken_call p cfg s0 = (Started q, s1)"
      and fin: "settled (fetches (run s1 evs) ! q) = Some r"
      and waiting: "\<not> resumed (fetches (run s1 evs) ! q)"
  shows "tokenCache (resume q (run s1 evs)) p =
            Some \<lparr>token = (case r of Inl e \<Rightarrow> cached_token s0 p | Inr t \<Rightarrow> Some t),
                  promise = None\<rparr>
       \<and> resolves_to (resume q (run s1 evs)) (Started q) = Some r
       \<and> resolves_to (resume q (run s1 evs)) (Joined q) = Some r"
proof -
  from getToken_call_Started[OF start]
  have q: "q = length (fetches s0)" and s1: "s1 = snd (start_fetch p cfg s0)" by simp_all
  have q1: "q < length (fetches s1)"
    and o1: "owner (fetches s1 ! q) = p"
    and e1: "existingToken (fetches s1 ! q) = cached_token s0 p"
    by (simp_all add: q s1 start_fetch_def Let_def)
  let ?s2 = "run s1 evs"
  from run_fetch_frame[OF q1, of evs]
  have q2: "q < length (fetches ?s2)"
    and o2: "owner (fetches ?s2 ! q) = p"
    and e2: "existingToken (fetches ?s2 ! q) = cached_token s0 p"
    using o1 e1 by simp_all
  show ?thesis
    using q2 o2 e2 fin waiting
    by (cases r) (simp_all add: resume_def resolves_to_def)
qed

theorem getToken_fetch_atomicity_witness:
  "fst (getToken_call ''gw'' gw_config (holding (bearer ''old'' 30000))) = Started 0
   \<and> tokenCache (resume 0 (run (snd (getToken_call ''gw'' gw_config
         (holding (bearer ''old'' 30000))))
         [GetToken ''gw'' gw_config, Settle 0 (Inr (reply 500 ''boom''))])) ''gw''
       = Some \<lparr>token = Some (bearer ''old'' 30000), promise = None\<rparr>
   \<and> resolves_to (resume 0 (run (snd (getToken_call ''gw'' gw_config
         (holding (bearer ''old'' 30000))))
         [GetToken ''gw'' gw_config, Settle 0 (Inr (reply 500 ''boom''))])) (Joined 0)
       = Some (Inl (Error ''OAuth token failed (500): boom''))"
proof -
  let ?s0 = "holding (bearer ''old'' 30000)"
  let ?s1 = "snd (getToken_call ''gw'' gw_config ?s0)"
  let ?evs = "[GetToken ''gw'' gw_config, Settle 0 (Inr (reply 500 ''boom''))]"
  have o: "fst (getToken_call ''gw'' gw_config ?s0) = Started 0"
    by (simp add: getToken_call_def cached_token_def cached_promise_def holding_def
          initial_def bearer_def start_fetch_def Let_def)
  then have start: "getToken_call ''gw'' gw_config ?s0 = (Started 0, ?s1)"
    by (simp add: prod_eq_iff)
  have fin: "settled (fetches (run ?s1 ?evs) ! 0)
               = Some (Inl (Error ''OAuth token failed (500): boom''))"
    by (simp add: run_def getToken_call_def cached_token_def cached_promise_def holding_def
          initial_def bearer_def start_fetch_def Let_def settle_def fetchToken_result_def
          ok_def reply_def string_of_nat_500)
  have waiting: "\<not> resumed (fetches (run ?s1 ?evs) ! 0)"
    by (simp add: run_def getToken_call_def cached_token_def cached_promise_def holding_def
          initial_def bearer_def start_fetch_def Let_def settle_def)
  have c: "cached_token ?s0 ''gw'' = Some (bearer ''old'' 30000)"
    by (simp add: cached_token_def holding_def)
  show ?thesis
    using getToken_fetch_atomicity [OF start fin waiting] o c by simp
qed

subsection \<open>C5: invalidation and a fetch in flight\<close>

text \<open>
  Claim C5: invalidating a destination removes the cached token only and keeps a
  fetch in flight attached, so that a caller arriving afterwards awaits that fetch
  instead of starting a second one. The code deletes the whole entry. With a stale
  token cached, one caller has started fetch 0; a request sent earlier with that
  token is answered 401 and runs lines 297-298: the entry, promise slot included,
  is gone, fetch 0 is still in flight, and \<^verbatim>\<open>getToken\<close> starts fetch 1 beside it.
\<close>

theorem invalidate_discards_pending_fetch:
  "fst (getToken_call ''gw'' gw_config (holding (bearer ''old'' 30000))) = Started 0
   \<and> cached_promise (snd (getToken_call ''gw'' gw_config (holding (bearer ''old'' 30000))))
        ''gw'' = Some 0
   \<and> tokenCache (invalidate ''gw''
        (snd (getToken_call ''gw'' gw_config (holding (bearer ''old'' 30000))))) ''gw'' = None
   \<and> in_flight (invalidate ''gw''
        (snd (getToken_call ''gw'' gw_config (holding (bearer ''old'' 30000))))) ''gw'' = [0]
   \<and> fst (getToken_call ''gw'' gw_config (invalidate ''gw''
        (snd (getToken_call ''gw'' gw_config (holding (bearer ''old'' 30000)))))) = Started 1
   \<and> in_flight (snd (getToken_call ''gw'' gw_config (invalidate ''gw''
        (snd (getToken_call ''gw'' gw_config (holding (bearer ''old'' 30000))))))) ''gw''
       = [0, 1]"
proof -
  let ?old = "bearer ''old'' 30000"
  let ?s1 = "\<lparr>tokenCache = [''gw'' \<mapsto> \<lparr>token = Some ?old, promise = Some 0\<rparr>],
              fetches = [\<lparr>owner = ''gw'', existingToken = Some ?old, request_ix = 0,
                          settled = None, resumed = False\<rparr>],
              sent = [token_request gw_config], now = 0\<rparr>"
  have first: "getToken_call ''gw'' gw_config (holding ?old) = (Started 0, ?s1)"
    by (simp add: holding_def initial_def bearer_def getToken_call_def start_fetch_def
          cached_token_def cached_promise_def Let_def)
  have slot: "cached_promise ?s1 ''gw'' = Some 0"
    by (simp add: cached_promise_def)
  have gone: "tokenCache (invalidate ''gw'' ?s1) ''gw'' = None"
    by (simp add: invalidate_def)
  have one: "in_flight (invalidate ''gw'' ?s1) ''gw'' = [0]"
    by (simp add: invalidate_def in_flight_def)
  have second: "fst (getToken_call ''gw'' gw_config (invalidate ''gw'' ?s1)) = Started 1"
    by (simp add: getToken_call_invalidate) (simp add: start_fetch_def Let_def invalidate_def)
  have two: "in_flight (snd (getToken_call ''gw'' gw_config (invalidate ''gw'' ?s1))) ''gw''
               = [0, 1]"
    by (simp add: getToken_call_invalidate)
       (simp add: start_fetch_def Let_def invalidate_def in_flight_def)
  show ?thesis
    unfolding first using slot gone one second two by simp
qed

subsection \<open>C6: requests of no registered destination\<close>

text \<open>
  Claim C6: a request whose url starts with no registered \<^verbatim>\<open>baseURL\<close> goes through
  the original transport with the caller's own arguments, and the outcome of that
  call is returned as it is; the token cache and the fetches are not touched.
\<close>

theorem interceptor_pass_through:
  assumes "\<forall>(providerId, config) \<in> set providers. \<not> prefix (baseURL config) (url_of input)"
  shows "interceptor env providers input init s = originalFetch env input init s
       \<and> fst (interceptor env providers input init s) = transport env (length (sent s))
       \<and> sent (snd (interceptor env providers input init s))
           = sent s @ [\<lparr>call_input = input, call_init = init\<rparr>]
       \<and> tokenCache (snd (interceptor env providers input init s)) = tokenCache s
       \<and> fetches (snd (interceptor env providers input init s)) = fetches s"
proof -
  have "find_provider providers (url_of input) = None"
    using assms by (simp add: find_provider_None)
  then have "interceptor env providers input init s = originalFetch env input init s"
    by (simp add: interceptor_def)
  then show ?thesis by (simp add: originalFetch_def Let_def)
qed

theorem interceptor_pass_through_witness:
  "fst (interceptor failing_env gw_providers (Str ''https://other.example.org/v1/models'')
          (Some \<lparr>init_method = Some ''GET'',
                 init_headers = Some (Pairs [(''X-Trace'', ''1'')]),
                 init_body = None\<rparr>) initial) = Inr (reply 500 ''boom'')
   \<and> sent (snd (interceptor failing_env gw_providers
          (Str ''https://other.example.org/v1/models'')
          (Some \<lparr>init_method = Some ''GET'',
                 init_headers = Some (Pairs [(''X-Trace'', ''1'')]),
                 init_body = None\<rparr>) initial))
       = [\<lparr>call_input = Str ''https://other.example.org/v1/models'',
           call_init = Some \<lparr>init_method = Some ''GET'',
                              init_headers = Some (Pairs [(''X-Trace'', ''1'')]),
                              init_body = None\<rparr>\<rparr>]"
proof -
  have h: "\<forall>(providerId, config) \<in> set gw_providers.
             \<not> prefix (baseURL config) (url_of (Str ''https://other.example.org/v1/models''))"
    by (simp add: gw_providers_def)
  show ?thesis
    using interceptor_pass_through [OF h, of failing_env
            "Some \<lparr>init_method = Some ''GET'',
                   init_headers = Some (Pairs [(''X-Trace'', ''1'')]),
                   init_body = None\<rparr>" initial]
    by (simp add: failing_env_def initial_def originalFetch_def Let_def)
qed

subsection \<open>C7: installing the interceptor twice\<close>

text \<open>
  Claim C7: installing a second time changes nothing. When \<^verbatim>\<open>globalThis.fetch\<close> is
  no longer the saved original, the installation leaves it as it is; when it is the
  original, the interceptor is put in its place, and the interceptor calls the saved
  original, never itself.
\<close>

theorem install_idempotent:
  "installFetchInterceptor original (installFetchInterceptor original g)
     = installFetchInterceptor original g
   \<and> (g \<noteq> original \<longrightarrow> installFetchInterceptor original g = g)
   \<and> installFetchInterceptor original original = Interceptor original
   \<and> callee (installFetchInterceptor original original) = Some original
   \<and> callee (installFetchInterceptor original g) \<noteq> Some (installFetchInterceptor original g)"
proof -
  have a: "installFetchInterceptor original original = Interceptor original"
    by (simp add: installFetchInterceptor_def)
  have b: "g \<noteq> original \<Longrightarrow> installFetchInterceptor original g = g"
    by (simp add: installFetchInterceptor_def)
  have c: "installFetchInterceptor original (Interceptor original) = Interceptor original"
    by (simp add: installFetchInterceptor_def Interceptor_neq)
  have d: "installFetchInterceptor original (installFetchInterceptor original g)
     = installFetchInterceptor original g"
  proof (cases "g = original")
    case True
    then show ?thesis by (simp add: a c)
  next
    case False
    then show ?thesis by (simp add: b)
  qed
  show ?thesis using a b c d callee_neq by simp
qed

theorem install_idempotent_witness:
  "Interceptor (Native 0) \<noteq> Native 0
   \<and> installFetchInterceptor (Native 0) (Interceptor (Native 0)) = Interceptor (Native 0)
   \<and> installFetchInterceptor (Native 0) (installFetchInterceptor (Native 0) (Native 0))
       = Interceptor (Native 0)"
  using install_idempotent [of "Native 0" "Interceptor (Native 0)"]
        install_idempotent [of "Native 0" "Native 0"]
  by simp

subsection \<open>C8: what a failed token fetch signals\<close>

text \<open>
  Claim C8 says that a failed token fetch signals a typed error that carries the
  destination id. It does not: \<^verbatim>\<open>fetchToken\<close> is not given the provider id, and the
  error of a 500 response is the same plain \<^verbatim>\<open>Error\<close> for two different
  destinations.
\<close>

theorem fetch_error_lacks_destination:
  "fst (getToken failing_env ''gw-a'' gw_config initial)
     = Inl (Error ''OAuth token failed (500): boom'')
   \<and> fst (getToken failing_env ''gw-b'' gw_config initial)
     = Inl (Error ''OAuth token failed (500): boom'')"
  by (simp add: getToken_def getToken_call_def cached_token_def cached_promise_def initial_def
        start_fetch_def await_promise_def failing_env_def reply_def fetchToken_result_def
        ok_def string_of_nat_500)

text \<open>
  Claim C8, amended: when a call of \<^verbatim>\<open>getToken\<close> starts a fetch, a response of the
  issuer whose status is not 2xx and whose body can be read makes it throw a plain
  \<^verbatim>\<open>Error\<close> whose message \<^verbatim>\<open>OAuth token failed (<status>): <body>\<close> holds the HTTP
  status and the response body; a failure of the transport, or of reading the body
  (of a response that is not 2xx as text, of a 2xx response as JSON), is thrown on as
  it is. Neither error holds the destination id. No failure is swallowed: a token is
  returned only for a 2xx response with a readable body.
\<close>

theorem fetchToken_failures:
  assumes "getToken_call p cfg s = (Started q, s1)"
  shows "(case transport env (length (sent s)) of
            Inl cause \<Rightarrow> fst (getToken env p cfg s) = Inl cause
          | Inr res \<Rightarrow>
              if res_status res < 200 \<or> 299 < res_status res then
                (case res_text res of
                   Inl cause \<Rightarrow> fst (getToken env p cfg s) = Inl cause
                 | Inr body \<Rightarrow>
                     fst (getToken env p cfg s) =
                       Inl (Error (''OAuth token failed ('' @ string_of_nat (res_status res)
                                   @ ''): '' @ body)))
              else (case res_json res of
                      Inl cause \<Rightarrow> fst (getToken env p cfg s) = Inl cause
                    | Inr data \<Rightarrow> \<exists>t. fst (getToken env p cfg s) = Inr t))"
  by (auto simp: getToken_Started[OF assms] fetchToken_result_def ok_def split: sum.splits)

theorem fetchToken_failures_witness:
  "fst (getToken_call ''gw'' gw_config initial) = Started 0
   \<and> transport failing_env (length (sent initial)) = Inr (reply 500 ''boom'')
   \<and> fst (getToken failing_env ''gw'' gw_config initial)
       = Inl (Error ''OAuth token failed (500): boom'')
   \<and> transport unreadable_env (length (sent initial)) = Inr (unreadable 502)
   \<and> fst (getToken unreadable_env ''gw'' gw_config initial) = Inl (Failure ''body stream'')"
proof -
  have o: "fst (getToken_call ''gw'' gw_config initial) = Started 0"
    by (simp add: getToken_call_def cached_token_def cached_promise_def initial_def
          start_fetch_def Let_def)
  then have start: "getToken_call ''gw'' gw_config initial
                      = (Started 0, snd (getToken_call ''gw'' gw_config initial))"
    by (simp add: prod_eq_iff)
  have t: "transport failing_env (length (sent initial)) = Inr (reply 500 ''boom'')"
    by (simp add: failing_env_def)
  have u: "transport unreadable_env (length (sent initial)) = Inr (unreadable 502)"
    by (simp add: unreadable_env_def)
  have f: "res_status (reply 500 ''boom'') = 500" "res_text (reply 500 ''boom'') = Inr ''boom''"
    by (simp_all add: reply_def)
  have g: "res_status (unreadable 502) = 502"
    "res_text (unreadable 502) = Inl (Failure ''body stream'')"
    by (simp_all add: unreadable_def)
  have a: "fst (getToken failing_env ''gw'' gw_config initial)
             = Inl (Error ''OAuth token failed (500): boom'')"
    using fetchToken_failures [OF start, of failing_env]
    by (simp add: t f string_of_nat_500)
  have b: "fst (getToken unreadable_env ''gw'' gw_config initial) = Inl (Failure ''body stream'')"
    using fetchToken_failures [OF start, of unreadable_env]
    by (simp add: u g)
  show ?thesis using o t u a b by simp
qed

subsection \<open>C9: defaults of the token\<close>

text \<open>
  Claim C9 says that the token type is the response's \<^verbatim>\<open>token_type\<close> unless the
  issuer omits it, and the lifetime the response's \<^verbatim>\<open>expires_in\<close> unless omitted.
  A response with an empty \<^verbatim>\<open>token_type\<close> and \<^verbatim>\<open>expires_in\<close> \<open>0\<close>, fetched at time
  \<open>1000\<close>, gets the type \<^verbatim>\<open>Bearer\<close> and expires at \<open>1000 + 3600 * 1000\<close>, not at
  \<open>1000\<close>.
\<close>

theorem fetchToken_falsy_fields:
  "fetchToken_result (Inr (issued ''tok2'' (Some []) (Some 0))) 1000
     = Inr \<lparr>accessToken = Some ''tok2'', tokenType = ''Bearer'', expiresAt = 3601000\<rparr>
   \<and> fetchToken_result (Inr (issued ''tok2'' (Some []) (Some 0))) 1000
     \<noteq> Inr \<lparr>accessToken = Some ''tok2'', tokenType = [], expiresAt = 1000 + 0 * 1000\<rparr>"
  by (simp add: issued_def fetchToken_result_def ok_def str_or_def num_or_def)

text \<open>
  Claim C9, amended: for every successful response of the issuer, the token type is
  the response's \<^verbatim>\<open>token_type\<close>, or \<^verbatim>\<open>Bearer\<close> when it is omitted or empty, and
  \<^verbatim>\<open>expiresAt\<close> is the fetch time plus \<^verbatim>\<open>expires_in\<close> seconds, or plus 3600 seconds
  when \<^verbatim>\<open>expires_in\<close> is omitted or \<open>0\<close>. A response with no \<^verbatim>\<open>token_type\<close> gives the
  header value \<^verbatim>\<open>Bearer <access_token>\<close>.
\<close>

theorem fetchToken_defaults:
  assumes "ok res" and "res_json res = Inr data"
  shows "\<exists>t. fetchToken_result (Inr res) n = Inr t
       \<and> accessToken t = access_token data
       \<and> tokenType t = (case token_type data of
                           None \<Rightarrow> ''Bearer''
                         | Some ty \<Rightarrow> if ty = [] then ''Bearer'' else ty)
       \<and> expiresAt t = n + (case expires_in data of
                              None \<Rightarrow> 3600
                            | Some l \<Rightarrow> if l = 0 then 3600 else l) * 1000
       \<and> (token_type data = None \<longrightarrow>
            authorization t = ''Bearer '' @ (case access_token data of
                                               None \<Rightarrow> ''undefined''
                                             | Some a \<Rightarrow> a))"
  using assms
  by (simp add: fetchToken_result_def str_or_def num_or_def authorization_def)

theorem fetchToken_defaults_witness:
  "ok (issued ''tok2'' None (Some 60))
   \<and> (\<exists>t. fetchToken_result (Inr (issued ''tok2'' None (Some 60))) 5000 = Inr t
          \<and> tokenType t = ''Bearer'' \<and> expiresAt t = 65000
          \<and> authorization t = ''Bearer tok2'')"
proof -
  have h: "ok (issued ''tok2'' None (Some 60))"
    by (simp add: ok_def issued_def)
  have j: "res_json (issued ''tok2'' None (Some 60))
             = Inr \<lparr>access_token = Some ''tok2'', token_type = None, expires_in = Some 60\<rparr>"
    by (simp add: issued_def)
  show ?thesis
    using fetchToken_defaults [OF h j, of 5000] h by auto
qed

subsection \<open>C10: a lifetime of zero\<close>

text \<open>
  Claim C10: when the issuer's response carries \<^verbatim>\<open>expires_in\<close> equal to \<open>0\<close>, the
  token expires 3600 seconds after the fetch time, as if the field were absent, and
  not at the fetch time.
\<close>

theorem fetchToken_zero_lifetime:
  assumes "ok res" and "res_json res = Inr data" and "expires_in data = Some 0"
  shows "\<exists>t. fetchToken_result (Inr res) n = Inr t
           \<and> expiresAt t = n + 3600 * 1000 \<and> expiresAt t \<noteq> n
           \<and> fetchToken_result (Inr (res\<lparr>res_json := Inr (data\<lparr>expires_in := None\<rparr>)\<rparr>)) n = Inr t"
  using assms by (simp add: fetchToken_result_def num_or_def ok_def)

theorem fetchToken_zero_lifetime_witness:
  "ok (issued ''tok'' (Some ''Bearer'') (Some 0))
   \<and> (\<exists>t. fetchToken_result (Inr (issued ''tok'' (Some ''Bearer'') (Some 0))) 5000 = Inr t
          \<and> expiresAt t = 3605000)"
proof -
  have h: "ok (issued ''tok'' (Some ''Bearer'') (Some 0))"
    by (simp add: ok_def issued_def)
  have j: "res_json (issued ''tok'' (Some ''Bearer'') (Some 0))
             = Inr \<lparr>access_token = Some ''tok'', token_type = Some ''Bearer'',
                    expires_in = Some 0\<rparr>"
    by (simp add: issued_def)
  show ?thesis
    using fetchToken_zero_lifetime [OF h j, of 5000] h by auto
qed

end
